theory Spec2Isabelle
  imports Complex_Main
begin

section \<open>Algolite: the filter compiler and the query handler\<close>

text \<open>
  The development follows two source files: \<^verbatim>\<open>src/parseAlgoliaSQL.js\<close> (the
  compiler \<^verbatim>\<open>buildSearchExpression\<close> and the exported parse-then-compile
  function) and \<^verbatim>\<open>index.js\<close> (the handler of
  \<^verbatim>\<open>POST /1/indexes/:indexName/query\<close> and \<^verbatim>\<open>wrapAsyncMiddleware\<close>).
  JavaScript numbers are modelled as mathematical integers, which is exact for the
  integral values below \<open>2^53\<close> that array lengths and page numbers take.
  A thrown exception or a rejected promise is the left summand of a sum type.
\<close>

subsection \<open>Syntax trees\<close>

text \<open>
  A literal is the \<^verbatim>\<open>value.value\<close> of a MATCH node: a string, a number or a
  boolean. \<open>toString\<close> is the conversion a template literal applies to it.
\<close>

datatype literal = LString string | LNumber int | LBoolean bool

fun digits :: "nat \<Rightarrow> string" where
  "digits n = (if n < 10 then [''0123456789'' ! n] else digits (n div 10) @ [''0123456789'' ! (n mod 10)])"

declare digits.simps [simp del]

fun toString :: "literal \<Rightarrow> string" where
  "toString (LString s) = s"
| "toString (LNumber n) = (if n < 0 then ''-'' @ digits (nat (- n)) else digits (nat n))"
| "toString (LBoolean b) = (if b then ''true'' else ''false'')"

text \<open>
  The nodes are objects tagged by the string field \<^verbatim>\<open>token\<close>. A MATCH node
  carries \<^verbatim>\<open>key\<close> and \<^verbatim>\<open>value\<close>, an OR or AND node \<^verbatim>\<open>left\<close> and
  \<^verbatim>\<open>right\<close>, a NOT node its operand in \<^verbatim>\<open>value\<close>. \<open>OtherNode t\<close> is an
  object that has the token \<open>t\<close> and none of these fields.
\<close>

datatype rule =
    MatchNode string literal
  | OrNode rule rule
  | AndNode rule rule
  | NotNode rule
  | OtherNode string

fun token :: "rule \<Rightarrow> string" where
  "token (MatchNode k v) = ''MATCH''"
| "token (OrNode l r) = ''OR''"
| "token (AndNode l r) = ''AND''"
| "token (NotNode v) = ''NOT''"
| "token (OtherNode t) = t"

subsection \<open>Errors\<close>

datatype tok = TAND | TOR | TNOT | LPAREN | RPAREN | COLON | WORD string

text \<open>
  \<open>Error m\<close> is \<^verbatim>\<open>new Error(m)\<close>; \<open>TypeError\<close> is what reading a field of
  \<^verbatim>\<open>undefined\<close> throws; \<open>SyntaxError\<close> is the parser's failure, with the
  offending token (\<open>None\<close> at the end of the input); \<open>IndexUnavailable\<close> is a
  rejected call of the index.
\<close>

datatype error = Error string | TypeError | SyntaxError "tok option" | IndexUnavailable

subsection \<open>The index capability\<close>

text \<open>
  What the handler passes to \<^verbatim>\<open>db.SEARCH\<close> is either a string (the text query,
  or a \<^verbatim>\<open>key:value\<close> leaf) or a value built by the combinators of the index,
  which the code never inspects. A record of the index is a finite map from field
  names to values; a field that is absent reads as \<^verbatim>\<open>undefined\<close>.
\<close>

datatype 'e operand = Str string | Built 'e

type_synonym 'v hit = "string \<rightharpoonup> 'v"

record 'v item =
  obj :: "'v hit"

record ('e, 'v) db =
  OR :: "'e operand \<Rightarrow> 'e operand \<Rightarrow> 'e"
  AND :: "'e operand \<Rightarrow> 'e operand \<Rightarrow> 'e"
  NOT :: "'e operand \<Rightarrow> 'e operand \<Rightarrow> 'e"
  SEARCH :: "'e operand list \<Rightarrow> error + 'v item list"

subsection \<open>The compiler: \<^verbatim>\<open>buildSearchExpression\<close>\<close>

text \<open>
  One equation for each branch of the source, in its order. The left operand is
  compiled before the right one, and an exception of either leaves the function.
  A node that carries one of the four tokens without the fields of that token
  (\<open>OtherNode\<close>) makes the code read a field of \<^verbatim>\<open>undefined\<close>.
\<close>

fun buildSearchExpression :: "rule \<Rightarrow> ('e, 'v) db \<Rightarrow> error + 'e operand" where
  "buildSearchExpression (MatchNode k v) db = Inr (Str (k @ '':'' @ toString v))"
| "buildSearchExpression (OrNode l r) db =
     (case buildSearchExpression l db of
        Inl e \<Rightarrow> Inl e
      | Inr leftExpression \<Rightarrow>
          (case buildSearchExpression r db of
             Inl e \<Rightarrow> Inl e
           | Inr rightExpression \<Rightarrow> Inr (Built (OR db leftExpression rightExpression))))"
| "buildSearchExpression (AndNode l r) db =
     (case buildSearchExpression l db of
        Inl e \<Rightarrow> Inl e
      | Inr leftExpression \<Rightarrow>
          (case buildSearchExpression r db of
             Inl e \<Rightarrow> Inl e
           | Inr rightExpression \<Rightarrow> Inr (Built (AND db leftExpression rightExpression))))"
| "buildSearchExpression (NotNode v) db =
     (if token v = ''MATCH'' then
        (case buildSearchExpression v db of
           Inl e \<Rightarrow> Inl e
         | Inr expression \<Rightarrow> Inr (Built (NOT db (Str ''*'') expression)))
      else Inl (Error ''NOT only supports MATCH''))"
| "buildSearchExpression (OtherNode t) db =
     (if t = ''MATCH'' \<or> t = ''OR'' \<or> t = ''AND'' \<or> t = ''NOT'' then Inl TypeError
      else Inl (Error ''UNKNOWN TOKEN''))"

text \<open>The exported function: parse, then compile. The parser is another module and is
  the parameter \<open>parser\<close> here.\<close>

definition parseAlgoliaSQL ::
  "(string \<Rightarrow> error + rule) \<Rightarrow> ('e, 'v) db \<Rightarrow> string \<Rightarrow> error + 'e operand" where
  "parseAlgoliaSQL parser db sql =
     (case parser sql of Inl e \<Rightarrow> Inl e | Inr ast \<Rightarrow> buildSearchExpression ast db)"

subsection \<open>The grammar of filters\<close>

text \<open>
  The parser (\<^verbatim>\<open>algoliaDSLParser\<close>, required by \<^verbatim>\<open>parseAlgoliaSQL.js\<close>) is
  generated code that is not among the sources. The functions of the repository take
  it as the parameter \<open>parser\<close>. For closed examples, the definitions of this
  subsection give one parser that follows the specification: the tokens
  \<^verbatim>\<open>AND\<close>, \<^verbatim>\<open>OR\<close>, \<^verbatim>\<open>NOT\<close>, parentheses, the colon, identifiers and
  literals; white space is insignificant; \<^verbatim>\<open>AND\<close> and \<^verbatim>\<open>OR\<close> associate to the
  left, \<^verbatim>\<open>AND\<close> binds tighter, \<^verbatim>\<open>NOT\<close> is a prefix operator, and
  \<^verbatim>\<open>key:value\<close> is the only leaf.
\<close>

text \<open>Modelled from the spec: the white space of the filter grammar (the parser is
  missing from the sources).\<close>

definition is_space :: "char \<Rightarrow> bool" where
  "is_space c \<longleftrightarrow> c = CHR '' '' \<or> c = CHR 0x09 \<or> c = CHR 0x0A \<or> c = CHR 0x0D"

text \<open>Modelled from the spec: the one-character tokens of the filter grammar, the
  parentheses and the colon (the parser is missing from the sources).\<close>

definition is_special :: "char \<Rightarrow> bool" where
  "is_special c \<longleftrightarrow> c = CHR ''('' \<or> c = CHR '')'' \<or> c = CHR '':''"

text \<open>Modelled from the spec: the token of a parenthesis or of the colon (the parser
  is missing from the sources).\<close>

definition special_tok :: "char \<Rightarrow> tok" where
  "special_tok c = (if c = CHR ''('' then LPAREN else if c = CHR '')'' then RPAREN else COLON)"

text \<open>Modelled from the spec: the three operator words are tokens of their own, every
  other word is an identifier or a literal (the parser is missing from the sources).\<close>

definition word_tok :: "string \<Rightarrow> tok" where
  "word_tok w =
     (if w = ''AND'' then TAND else if w = ''OR'' then TOR
      else if w = ''NOT'' then TNOT else WORD w)"

text \<open>Modelled from the spec: the token of the word read so far, if there is one (the
  parser is missing from the sources).\<close>

definition flush :: "string \<Rightarrow> tok list" where
  "flush w = (if w = [] then [] else [word_tok w])"

text \<open>Modelled from the spec: the tokenizer of the filter grammar, with the word read
  so far as its first argument (the parser is missing from the sources).\<close>

fun tokenize :: "string \<Rightarrow> string \<Rightarrow> tok list" where
  "tokenize w [] = flush w"
| "tokenize w (c # cs) =
     (if is_space c then flush w @ tokenize [] cs
      else if is_special c then flush w @ special_tok c # tokenize [] cs
      else tokenize (w @ [c]) cs)"

text \<open>Modelled from the spec: the digits of a number literal (the parser is missing
  from the sources).\<close>

definition is_digit :: "char \<Rightarrow> bool" where
  "is_digit c \<longleftrightarrow> c \<in> set ''0123456789''"

text \<open>Modelled from the spec: a literal is a boolean, a number or a string (the parser
  is missing from the sources).\<close>

definition literal_of :: "string \<Rightarrow> literal" where
  "literal_of w =
     (if w = ''true'' then LBoolean True
      else if w = ''false'' then LBoolean False
      else if w \<noteq> [] \<and> list_all is_digit w
        then LNumber (foldl (\<lambda>n c. 10 * n + (of_char c - 48)) 0 w)
      else LString w)"

text \<open>Modelled from the spec: the prefix operator \<^verbatim>\<open>NOT\<close>, applied \<open>n\<close> times to
  an operand (the parser is missing from the sources).\<close>

fun negate :: "nat \<Rightarrow> rule \<Rightarrow> rule" where
  "negate 0 x = x"
| "negate (Suc n) x = NotNode (negate n x)"

text \<open>Modelled from the spec: \<^verbatim>\<open>AND\<close> associates to the left; \<open>acc\<close> is the
  conjunction read so far (the parser is missing from the sources).\<close>

definition join_and :: "rule option \<Rightarrow> rule \<Rightarrow> rule" where
  "join_and acc x = (case acc of None \<Rightarrow> x | Some a \<Rightarrow> AndNode a x)"

text \<open>Modelled from the spec: \<^verbatim>\<open>OR\<close> associates to the left; \<open>acc\<close> is the
  disjunction read so far (the parser is missing from the sources).\<close>

definition join_or :: "rule option \<Rightarrow> rule \<Rightarrow> rule" where
  "join_or acc x = (case acc of None \<Rightarrow> x | Some a \<Rightarrow> OrNode a x)"

text \<open>Modelled from the spec: parenthesised grouping. A frame holds what has been read
  of an enclosing group when a parenthesis opens: the disjunction so far, the
  conjunction so far, and the number of \<^verbatim>\<open>NOT\<close>s waiting for their operand (the
  parser is missing from the sources).\<close>

type_synonym frame = "rule option \<times> rule option \<times> nat"

text \<open>Modelled from the spec: the parser of the filter grammar, as a machine over the
  tokens with a stack of frames for the open parentheses (the parser is missing from
  the sources). \<open>expect_operand\<close> reads a leaf, a \<^verbatim>\<open>NOT\<close> or an opening
  parenthesis; \<open>expect_operator\<close> has just read the operand \<open>x\<close>.\<close>

fun expect_operand ::
  "frame list \<Rightarrow> rule option \<Rightarrow> rule option \<Rightarrow> nat \<Rightarrow> tok list \<Rightarrow> error + rule"
and expect_operator ::
  "frame list \<Rightarrow> rule option \<Rightarrow> rule option \<Rightarrow> rule \<Rightarrow> tok list \<Rightarrow> error + rule"
where
  "expect_operand st os as n (TNOT # ts) = expect_operand st os as (Suc n) ts"
| "expect_operand st os as n (LPAREN # ts) = expect_operand ((os, as, n) # st) None None 0 ts"
| "expect_operand st os as n (WORD k # COLON # WORD v # ts) =
     expect_operator st os as (negate n (MatchNode k (literal_of v))) ts"
| "expect_operand st os as n (WORD k # COLON # t # ts) = Inl (SyntaxError (Some t))"
| "expect_operand st os as n (WORD k # COLON # []) = Inl (SyntaxError None)"
| "expect_operand st os as n (WORD k # t # ts) = Inl (SyntaxError (Some t))"
| "expect_operand st os as n (WORD k # []) = Inl (SyntaxError None)"
| "expect_operand st os as n (t # ts) = Inl (SyntaxError (Some t))"
| "expect_operand st os as n [] = Inl (SyntaxError None)"
| "expect_operator st os as x (TAND # ts) = expect_operand st os (Some (join_and as x)) 0 ts"
| "expect_operator st os as x (TOR # ts) =
     expect_operand st (Some (join_or os (join_and as x))) None 0 ts"
| "expect_operator st os as x (RPAREN # ts) =
     (case st of
        [] \<Rightarrow> Inl (SyntaxError (Some RPAREN))
      | (os', as', n') # st' \<Rightarrow>
          expect_operator st' os' as' (negate n' (join_or os (join_and as x))) ts)"
| "expect_operator st os as x (t # ts) = Inl (SyntaxError (Some t))"
| "expect_operator st os as x [] =
     (case st of
        [] \<Rightarrow> Inr (join_or os (join_and as x))
      | f # st' \<Rightarrow> Inl (SyntaxError None))"

text \<open>Modelled from the spec: \<^verbatim>\<open>parse(text)\<close>, the syntax tree of a filter or a
  \<open>SyntaxError\<close> (the parser is missing from the sources).\<close>

definition parse :: "string \<Rightarrow> error + rule" where
  "parse s = expect_operand [] None None 0 (tokenize [] s)"

subsection \<open>The query handler of \<^verbatim>\<open>index.js\<close>\<close>

text \<open>
  An element of \<^verbatim>\<open>facetFilters\<close> is a string or an array of strings.
  \<open>join\<close> is \<^verbatim>\<open>Array.prototype.join\<close> on an array of strings.
\<close>

datatype facet = Bare string | Group "string list"

fun join :: "'a list \<Rightarrow> 'a list list \<Rightarrow> 'a list" where
  "join sep [] = []"
| "join sep [x] = x"
| "join sep (x # y # ys) = x @ sep @ join sep (y # ys)"

definition facetFilterString :: "facet list \<Rightarrow> string" where
  "facetFilterString facetFilters =
     join '' AND ''
       (map (\<lambda>f. case f of Group g \<Rightarrow> ''('' @ join '' OR '' g @ '')'' | Bare s \<Rightarrow> s)
          facetFilters)"

text \<open>
  The request, after the destructuring at the head of the handler, for a request
  that carries its fields in the JSON body. \<open>sortAttribute\<close> and \<open>sortDesc\<close> come
  from \<^verbatim>\<open>getIndexName\<close>. \<open>None\<close> is \<^verbatim>\<open>undefined\<close>.
\<close>

record request =
  sortAttribute :: "string option"
  sortDesc :: bool
  query :: "string option"
  filters :: "string option"
  facetFilters :: "facet list option"
  page :: "int option"
  hitsPerPage :: "int option"

text \<open>
  The search expressions, in the order of the three \<^verbatim>\<open>push\<close>es. An empty
  \<^verbatim>\<open>filters\<close> string is falsy and skipped; an array is always truthy, so an empty
  \<^verbatim>\<open>facetFilters\<close> array reaches the parser as the empty string.
\<close>

definition searchExp ::
  "(string \<Rightarrow> error + rule) \<Rightarrow> ('e, 'v) db \<Rightarrow> request \<Rightarrow> error + 'e operand list" where
  "searchExp parser db req =
     (let exp0 = (case query req of
                    None \<Rightarrow> []
                  | Some q \<Rightarrow> [Str (if q = [] then ''*'' else q)])
      in case (case filters req of
                 None \<Rightarrow> Inr exp0
               | Some f \<Rightarrow>
                   if f = [] then Inr exp0
                   else (case parseAlgoliaSQL parser db f of
                           Inl e \<Rightarrow> Inl e
                         | Inr x \<Rightarrow> Inr (exp0 @ [x]))) of
           Inl e \<Rightarrow> Inl e
         | Inr exp1 \<Rightarrow>
             (case facetFilters req of
                None \<Rightarrow> Inr exp1
              | Some fs \<Rightarrow>
                  (case parseAlgoliaSQL parser db (facetFilterString fs) of
                     Inl e \<Rightarrow> Inl e
                   | Inr x \<Rightarrow> Inr (exp1 @ [x]))))"

text \<open>
  \<^verbatim>\<open>Math.ceil(nbHits / hitsPerPage)\<close>: the quotient by zero is not a finite number.
\<close>

datatype jsnumber = Finite int | PlusInfinity | MinusInfinity | NotANumber

definition ceil_quotient :: "int \<Rightarrow> int \<Rightarrow> jsnumber" where
  "ceil_quotient a b =
     (if b = 0 then (if a = 0 then NotANumber else if 0 < a then PlusInfinity else MinusInfinity)
      else Finite \<lceil>real_of_int a / real_of_int b\<rceil>)"

text \<open>\<^verbatim>\<open>Array.prototype.slice(start, end)\<close> with integral arguments.\<close>

definition slice :: "'a list \<Rightarrow> int \<Rightarrow> int \<Rightarrow> 'a list" where
  "slice xs start fin =
     (let len = int (length xs);
          k = (if start < 0 then max (len + start) 0 else min start len);
          final = (if fin < 0 then max (len + fin) 0 else min fin len)
      in take (nat (final - k)) (drop (nat k) xs))"

text \<open>
  The mapping of a raw match: \<^verbatim>\<open>obj.objectID = obj._id; delete obj._id\<close>. The
  matches are taken to be distinct objects.
\<close>

definition toHit :: "'v item \<Rightarrow> 'v hit" where
  "toHit item = (let ob = obj item; ob1 = ob(''objectID'' := ob ''_id'') in ob1(''_id'' := None))"

text \<open>
  What the handler takes from the language: \<^verbatim>\<open>Array.prototype.sort\<close> and the
  relational operators \<^verbatim>\<open><=\<close> and \<^verbatim>\<open>>=\<close> on attribute values (\<open>None\<close> is
  \<^verbatim>\<open>undefined\<close>).
\<close>

record 'v host =
  array_sort :: "('v hit \<Rightarrow> 'v hit \<Rightarrow> int) \<Rightarrow> 'v hit list \<Rightarrow> 'v hit list"
  js_le :: "'v option \<Rightarrow> 'v option \<Rightarrow> bool"
  js_ge :: "'v option \<Rightarrow> 'v option \<Rightarrow> bool"

text \<open>The comparison function that the handler passes to \<^verbatim>\<open>sort\<close>.\<close>

definition comparator :: "'v host \<Rightarrow> string \<Rightarrow> bool \<Rightarrow> 'v hit \<Rightarrow> 'v hit \<Rightarrow> int" where
  "comparator h attr desc item1 item2 =
     (let item1Attr = item1 attr; item2Attr = item2 attr
      in if desc then (if js_ge h item2Attr item1Attr then 1 else -1)
         else (if js_le h item2Attr item1Attr then 1 else -1))"

record 'v response =
  hits :: "'v hit list"
  params :: string
  res_query :: string
  res_page :: int
  nbHits :: int
  nbPages :: jsnumber
  res_hitsPerPage :: int

definition respond :: "'v host \<Rightarrow> request \<Rightarrow> 'v item list \<Rightarrow> 'v response" where
  "respond h req result =
     (let pg = (case page req of None \<Rightarrow> 0 | Some p \<Rightarrow> p);
          hpp = (case hitsPerPage req of None \<Rightarrow> 20 | Some n \<Rightarrow> n);
          mapped = map toHit result;
          sorted = (case sortAttribute req of
                      None \<Rightarrow> mapped
                    | Some a \<Rightarrow>
                        if a = [] then mapped
                        else array_sort h (comparator h a (sortDesc req)) mapped);
          from = pg * hpp;
          fin = (from + hpp) - 1
      in \<lparr> hits = slice sorted from fin,
           params = [],
           res_query = (case query req of None \<Rightarrow> [] | Some q \<Rightarrow> q),
           res_page = pg,
           nbHits = int (length result),
           nbPages = ceil_quotient (int (length result)) hpp,
           res_hitsPerPage = hpp \<rparr>)"

definition queryHandler ::
  "'v host \<Rightarrow> (string \<Rightarrow> error + rule) \<Rightarrow> ('e, 'v) db \<Rightarrow> request \<Rightarrow> error + 'v response" where
  "queryHandler h parser db req =
     (case searchExp parser db req of
        Inl e \<Rightarrow> Inl e
      | Inr exps \<Rightarrow>
          (case SEARCH db exps of
             Inl e \<Rightarrow> Inl e
           | Inr result \<Rightarrow> Inr (respond h req result)))"

text \<open>
  \<^verbatim>\<open>wrapAsyncMiddleware\<close>: the reply the client gets, as the HTTP status and the
  JSON body. A handler that returns sends its result with the status 200; every
  rejection is caught by the one \<^verbatim>\<open>catch\<close>.
\<close>

datatype 'v body = Result "'v response" | Message string int

definition wrapAsyncMiddleware :: "error + 'v response \<Rightarrow> nat \<times> 'v body" where
  "wrapAsyncMiddleware outcome =
     (case outcome of
        Inr r \<Rightarrow> (200, Result r)
      | Inl error \<Rightarrow> (400, Message ''Internal server error'' 500))"

subsection \<open>Well-formed and supported trees\<close>

text \<open>
  A tree is well tagged when every node with one of the four tokens has the fields
  of that token, that is, when \<open>OtherNode\<close> only carries other tokens. It is
  supported when no node in it has another token and no NOT node has an operand
  that is not a MATCH node.
\<close>

fun well_tagged :: "rule \<Rightarrow> bool" where
  "well_tagged (MatchNode k v) = True"
| "well_tagged (OrNode l r) = (well_tagged l \<and> well_tagged r)"
| "well_tagged (AndNode l r) = (well_tagged l \<and> well_tagged r)"
| "well_tagged (NotNode v) = well_tagged v"
| "well_tagged (OtherNode t) = (t \<noteq> ''MATCH'' \<and> t \<noteq> ''OR'' \<and> t \<noteq> ''AND'' \<and> t \<noteq> ''NOT'')"

fun supported :: "rule \<Rightarrow> bool" where
  "supported (MatchNode k v) = True"
| "supported (OrNode l r) = (supported l \<and> supported r)"
| "supported (AndNode l r) = (supported l \<and> supported r)"
| "supported (NotNode v) = (token v = ''MATCH'')"
| "supported (OtherNode t) = False"

subsection \<open>The normalizer of facet filters, as the specification words it\<close>

text \<open>
  The specification describes a normalizer that builds a tree from the facet
  filters. The code has no such function: it builds a string and parses it. The
  definitions of this subsection follow the words of the specification, to be
  compared with what the code does.
\<close>

text \<open>Modelled from the spec: the key of a bare string read as \<^verbatim>\<open>key:value\<close>, what
  precedes its first colon.\<close>

definition key_of :: "string \<Rightarrow> string" where
  "key_of s = takeWhile (\<lambda>c. c \<noteq> CHR '':'') s"

text \<open>Modelled from the spec: the value of a bare string read as \<^verbatim>\<open>key:value\<close>, what
  follows its first colon.\<close>

definition value_of :: "string \<Rightarrow> string" where
  "value_of s = drop 1 (dropWhile (\<lambda>c. c \<noteq> CHR '':'') s)"

text \<open>Modelled from the spec: the Match of a bare string.\<close>

definition match_of :: "string \<Rightarrow> rule" where
  "match_of s = MatchNode (key_of s) (literal_of (value_of s))"

text \<open>Modelled from the spec: a chain of a binary node over a list of trees, nested to
  the left; there is no chain over no tree.\<close>

fun chain :: "(rule \<Rightarrow> rule \<Rightarrow> rule) \<Rightarrow> rule list \<Rightarrow> rule option" where
  "chain f [] = None"
| "chain f (x # xs) = Some (foldl f x xs)"

text \<open>Modelled from the spec: an element of the facet filters. A bare string becomes a
  Match, a nested list an Or-chain over its members.\<close>

fun element :: "facet \<Rightarrow> rule option" where
  "element (Bare s) = Some (match_of s)"
| "element (Group g) = chain OrNode (map match_of g)"

text \<open>Modelled from the spec: \<^verbatim>\<open>normalize(facetFilters)\<close>, all elements combined
  with And.\<close>

definition normalize :: "facet list \<Rightarrow> rule option" where
  "normalize fs = (case those (map element fs) of None \<Rightarrow> None | Some xs \<Rightarrow> chain AndNode xs)"

text \<open>
  A plain word is not empty, has no white space, parenthesis or colon, and is not
  an operator; a plain match is a plain key, a colon and a plain value.
\<close>

definition plain_word :: "string \<Rightarrow> bool" where
  "plain_word w \<longleftrightarrow>
     w \<noteq> [] \<and> list_all (\<lambda>c. \<not> is_space c \<and> \<not> is_special c) w
     \<and> w \<noteq> ''AND'' \<and> w \<noteq> ''OR'' \<and> w \<noteq> ''NOT''"

definition plain_match :: "string \<Rightarrow> bool" where
  "plain_match s \<longleftrightarrow> CHR '':'' \<in> set s \<and> plain_word (key_of s) \<and> plain_word (value_of s)"

fun plain_facet :: "facet \<Rightarrow> bool" where
  "plain_facet (Bare s) = plain_match s"
| "plain_facet (Group g) = (g \<noteq> [] \<and> list_all plain_match g)"

text \<open>The string of one element, as the function mapped over \<^verbatim>\<open>facetFilters\<close>
  gives it.\<close>

definition estring :: "facet \<Rightarrow> string" where
  "estring f = (case f of Group g \<Rightarrow> ''('' @ join '' OR '' g @ '')'' | Bare s \<Rightarrow> s)"

subsection \<open>An index and a host for closed examples\<close>

text \<open>
  An index whose combinators record the expression they are asked to build, and
  whose search returns a given list of matches or is unavailable.
\<close>

datatype tree =
    OR_tree "tree operand" "tree operand"
  | AND_tree "tree operand" "tree operand"
  | NOT_tree "tree operand" "tree operand"

definition recording_db :: "error + 'v item list \<Rightarrow> (tree, 'v) db" where
  "recording_db outcome =
     \<lparr> OR = OR_tree, AND = AND_tree, NOT = NOT_tree, SEARCH = (\<lambda>exps. outcome) \<rparr>"

text \<open>
  The relational operators on numbers: a comparison with \<^verbatim>\<open>undefined\<close> is false.
\<close>

definition number_le :: "int option \<Rightarrow> int option \<Rightarrow> bool" where
  "number_le a b = (case a of None \<Rightarrow> False | Some x \<Rightarrow> (case b of None \<Rightarrow> False | Some y \<Rightarrow> x \<le> y))"

definition number_ge :: "int option \<Rightarrow> int option \<Rightarrow> bool" where
  "number_ge a b = (case a of None \<Rightarrow> False | Some x \<Rightarrow> (case b of None \<Rightarrow> False | Some y \<Rightarrow> y \<le> x))"

text \<open>
  Two sorts for the hosts of the examples. Both are insertion sorts: each element
  in turn is moved in front of the elements before it for as long as the comparison
  function says so. The first asks about the later element and the earlier one, in
  this order, and moves on a negative answer; it is the order in which V8 asks
  since its version 7.0. The second asks about the earlier element and the later
  one, and moves on a positive answer, as older versions of V8 do on short arrays.
\<close>

definition insert_by :: "('a \<Rightarrow> 'a \<Rightarrow> bool) \<Rightarrow> 'a \<Rightarrow> 'a list \<Rightarrow> 'a list" where
  "insert_by before x ys =
     rev (dropWhile (before x) (rev ys)) @ [x] @ rev (takeWhile (before x) (rev ys))"

definition insertion_sort_by :: "('a \<Rightarrow> 'a \<Rightarrow> bool) \<Rightarrow> 'a list \<Rightarrow> 'a list" where
  "insertion_sort_by before xs = foldl (\<lambda>acc x. insert_by before x acc) [] xs"

definition later_first_sort :: "('a \<Rightarrow> 'a \<Rightarrow> int) \<Rightarrow> 'a list \<Rightarrow> 'a list" where
  "later_first_sort cmp = insertion_sort_by (\<lambda>later earlier. cmp later earlier < 0)"

definition earlier_first_sort :: "('a \<Rightarrow> 'a \<Rightarrow> int) \<Rightarrow> 'a list \<Rightarrow> 'a list" where
  "earlier_first_sort cmp = insertion_sort_by (\<lambda>later earlier. 0 < cmp earlier later)"

definition number_host :: "int host" where
  "number_host = \<lparr> array_sort = later_first_sort, js_le = number_le, js_ge = number_ge \<rparr>"

definition older_host :: "int host" where
  "older_host = \<lparr> array_sort = earlier_first_sort, js_le = number_le, js_ge = number_ge \<rparr>"

definition numbered :: "nat \<Rightarrow> int item list" where
  "numbered n = map (\<lambda>i. \<lparr> obj = [''_id'' \<mapsto> int i] \<rparr>) [0..<n]"

definition plain_request :: request where
  "plain_request =
     \<lparr> sortAttribute = None, sortDesc = False, query = None, filters = None,
       facetFilters = None, page = None, hitsPerPage = None \<rparr>"

section \<open>Properties\<close>

subsection \<open>The compiler\<close>

lemma token_MATCH: "well_tagged v \<Longrightarrow> token v = ''MATCH'' \<Longrightarrow> \<exists>k l. v = MatchNode k l"
  by (cases v) auto

lemma compiles_iff:
  "well_tagged ast \<Longrightarrow> (\<exists>x. buildSearchExpression ast db = Inr x) = supported ast"
proof (induction ast)
  case (NotNode v)
  then show ?case by (auto dest: token_MATCH)
qed (auto split: sum.splits)

lemma compile_errors:
  "well_tagged ast \<Longrightarrow> buildSearchExpression ast db = Inl e \<Longrightarrow>
     e = Error ''NOT only supports MATCH'' \<or> e = Error ''UNKNOWN TOKEN''"
proof (induction ast arbitrary: e)
  case (NotNode v)
  then show ?case by (auto dest: token_MATCH split: if_splits)
qed (auto split: sum.splits if_splits)

text \<open>
  C2. The compiler maps a MATCH node to the string \<^verbatim>\<open>key:value\<close>, an AND node to
  \<^verbatim>\<open>AND\<close> of the compiled children, an OR node to \<^verbatim>\<open>OR\<close> of the compiled
  children, and a NOT node over a MATCH node to \<^verbatim>\<open>NOT('*', leaf)\<close>. The tree of
  \<^verbatim>\<open>a:1 AND b:2\<close> compiles to \<^verbatim>\<open>AND('a:1', 'b:2')\<close> and the tree of
  \<^verbatim>\<open>NOT a:1\<close> to \<^verbatim>\<open>NOT('*', 'a:1')\<close>.
\<close>

theorem buildSearchExpression_cases:
  "buildSearchExpression (MatchNode k v) db = Inr (Str (k @ '':'' @ toString v))
   \<and> (buildSearchExpression l db = Inr x \<and> buildSearchExpression r db = Inr y \<longrightarrow>
        buildSearchExpression (AndNode l r) db = Inr (Built (AND db x y))
        \<and> buildSearchExpression (OrNode l r) db = Inr (Built (OR db x y)))
   \<and> buildSearchExpression (NotNode (MatchNode k v)) db =
        Inr (Built (NOT db (Str ''*'') (Str (k @ '':'' @ toString v))))
   \<and> buildSearchExpression (AndNode (MatchNode ''a'' (LNumber 1)) (MatchNode ''b'' (LNumber 2))) db =
        Inr (Built (AND db (Str ''a:1'') (Str ''b:2'')))
   \<and> buildSearchExpression (NotNode (MatchNode ''a'' (LNumber 1))) db =
        Inr (Built (NOT db (Str ''*'') (Str ''a:1'')))"
  by (simp add: digits.simps)

theorem buildSearchExpression_cases_witness:
  "buildSearchExpression (MatchNode ''a'' (LNumber 1)) (recording_db (Inr ([] :: int item list)))
       = Inr (Str ''a:1'')
   \<and> buildSearchExpression (NotNode (MatchNode ''b'' (LString ''x'')))
        (recording_db (Inr ([] :: int item list)))
       = Inr (Built (NOT_tree (Str ''*'') (Str ''b:x'')))
   \<and> buildSearchExpression
        (OrNode (MatchNode ''a'' (LNumber 1)) (NotNode (MatchNode ''b'' (LString ''x''))))
        (recording_db (Inr ([] :: int item list)))
       = Inr (Built (OR_tree (Str ''a:1'') (Built (NOT_tree (Str ''*'') (Str ''b:x'')))))"
proof -
  let ?db = "recording_db (Inr ([] :: int item list))"
  let ?l = "MatchNode ''a'' (LNumber 1)"
  let ?r = "NotNode (MatchNode ''b'' (LString ''x''))"
  let ?y = "Built (NOT_tree (Str ''*'') (Str ''b:x''))"
  note c = buildSearchExpression_cases [of "''a''" "LNumber 1" ?db ?l "Str ''a:1''" ?r ?y]
  have l: "buildSearchExpression ?l ?db = Inr (Str ''a:1'')"
    using c by (simp add: digits.simps)
  have r: "buildSearchExpression ?r ?db = Inr ?y"
    using buildSearchExpression_cases [of "''b''" "LString ''x''" ?db ?l "Str ''a:1''" ?r ?y]
    by (simp add: recording_db_def)
  have "buildSearchExpression (OrNode ?l ?r) ?db = Inr (Built (OR ?db (Str ''a:1'') ?y))"
    by (rule c [THEN conjunct2, THEN conjunct1, THEN mp, OF conjI [OF l r], THEN conjunct2])
  then show ?thesis using l r by (simp add: recording_db_def)
qed

text \<open>
  C3. On a well-tagged tree the compiler fails in two ways only. A NOT node whose
  operand is not a MATCH node fails with the error \<^verbatim>\<open>NOT only supports MATCH\<close>; a
  node whose token is none of the four fails with the error \<^verbatim>\<open>UNKNOWN TOKEN\<close>;
  the two errors differ; a tree compiles if and only if it holds no such node, and
  a failure is one of the two errors.
\<close>

theorem compile_failures:
  assumes "well_tagged ast"
  shows "(\<forall>v. ast = NotNode v \<and> token v \<noteq> ''MATCH'' \<longrightarrow>
            buildSearchExpression ast db = Inl (Error ''NOT only supports MATCH''))
       \<and> (token ast \<notin> {''MATCH'', ''AND'', ''OR'', ''NOT''} \<longrightarrow>
            buildSearchExpression ast db = Inl (Error ''UNKNOWN TOKEN''))
       \<and> Error ''NOT only supports MATCH'' \<noteq> Error ''UNKNOWN TOKEN''
       \<and> ((\<exists>x. buildSearchExpression ast db = Inr x) \<longleftrightarrow> supported ast)
       \<and> (\<forall>e. buildSearchExpression ast db = Inl e \<longrightarrow>
            e = Error ''NOT only supports MATCH'' \<or> e = Error ''UNKNOWN TOKEN'')"
proof -
  have "token ast \<notin> {''MATCH'', ''AND'', ''OR'', ''NOT''} \<longrightarrow>
          buildSearchExpression ast db = Inl (Error ''UNKNOWN TOKEN'')"
    using assms by (cases ast) auto
  moreover have "\<forall>v. ast = NotNode v \<and> token v \<noteq> ''MATCH'' \<longrightarrow>
          buildSearchExpression ast db = Inl (Error ''NOT only supports MATCH'')"
    by auto
  ultimately show ?thesis
    using compiles_iff [OF assms, of db] compile_errors [OF assms, of db] by simp
qed

theorem compile_failures_witness:
  "well_tagged (NotNode (AndNode (MatchNode ''a'' (LNumber 1)) (MatchNode ''b'' (LNumber 2))))
   \<and> buildSearchExpression
        (NotNode (AndNode (MatchNode ''a'' (LNumber 1)) (MatchNode ''b'' (LNumber 2))))
        (recording_db (Inr ([] :: int item list)))
       = Inl (Error ''NOT only supports MATCH'')
   \<and> well_tagged (OtherNode ''XOR'')
   \<and> buildSearchExpression (OtherNode ''XOR'') (recording_db (Inr ([] :: int item list)))
       = Inl (Error ''UNKNOWN TOKEN'')"
proof -
  let ?db = "recording_db (Inr ([] :: int item list))"
  let ?n = "NotNode (AndNode (MatchNode ''a'' (LNumber 1)) (MatchNode ''b'' (LNumber 2)))"
  have wn: "well_tagged ?n" by simp
  have wo: "well_tagged (OtherNode ''XOR'')" by simp
  have tn: "token (AndNode (MatchNode ''a'' (LNumber 1)) (MatchNode ''b'' (LNumber 2))) \<noteq> ''MATCH''"
    by simp
  have to: "token (OtherNode ''XOR'') \<notin> {''MATCH'', ''AND'', ''OR'', ''NOT''}" by simp
  have n: "buildSearchExpression ?n ?db = Inl (Error ''NOT only supports MATCH'')"
    by (rule compile_failures [OF wn, of ?db, THEN conjunct1, THEN spec, THEN mp,
          OF conjI [OF refl tn]])
  have o: "buildSearchExpression (OtherNode ''XOR'') ?db = Inl (Error ''UNKNOWN TOKEN'')"
    by (rule compile_failures [OF wo, of ?db, THEN conjunct2, THEN conjunct1, THEN mp, OF to])
  show ?thesis by (intro conjI wn wo n o)
qed

subsection \<open>The tokens and the tree of a joined string\<close>

lemmas parser_defs = parse_def is_space_def is_special_def flush_def word_tok_def
  special_tok_def literal_of_def is_digit_def join_and_def join_or_def

text \<open>The parser on the filters that the specification gives as examples.\<close>

lemma parse_examples:
  "parse ''a:1 AND b:2'' = Inr (AndNode (MatchNode ''a'' (LNumber 1)) (MatchNode ''b'' (LNumber 2)))
   \<and> parse ''NOT a:1'' = Inr (NotNode (MatchNode ''a'' (LNumber 1)))
   \<and> parse ''NOT (a:1 AND b:2)''
       = Inr (NotNode (AndNode (MatchNode ''a'' (LNumber 1)) (MatchNode ''b'' (LNumber 2))))
   \<and> parse ''key:x OR key:y''
       = Inr (OrNode (MatchNode ''key'' (LString ''x'')) (MatchNode ''key'' (LString ''y'')))"
  by (simp add: parser_defs)

text \<open>
  The tokenizer starts afresh at white space and at a one-character token, so the
  tokens of a joined string are the joined tokens of its members, for any members.
\<close>

lemma lex_break:
  "is_space c \<or> is_special c \<Longrightarrow> tokenize w (s @ c # t) = tokenize w s @ tokenize [] (c # t)"
  by (induction s arbitrary: w) (auto simp: flush_def)

lemma lex_AND: "tokenize [] (a @ '' AND '' @ b) = tokenize [] a @ TAND # tokenize [] b"
proof -
  have sp: "is_space CHR '' ''" by (simp add: is_space_def)
  have "tokenize [] (a @ '' AND '' @ b) = tokenize [] a @ tokenize [] (CHR '' '' # (''AND'' @ CHR '' '' # b))"
    using lex_break [of "CHR '' ''" "[]" a "''AND '' @ b"] sp by simp
  also have "tokenize [] (CHR '' '' # (''AND'' @ CHR '' '' # b)) = tokenize [] (''AND'' @ CHR '' '' # b)"
    using sp by (simp add: flush_def)
  also have "tokenize [] (''AND'' @ CHR '' '' # b) = tokenize [] ''AND'' @ tokenize [] (CHR '' '' # b)"
    using lex_break [of "CHR '' ''" "[]" "''AND''" b] sp by blast
  also have "tokenize [] ''AND'' = [TAND]"
    by (simp add: is_space_def is_special_def flush_def word_tok_def)
  also have "tokenize [] (CHR '' '' # b) = tokenize [] b"
    using sp by (simp add: flush_def)
  finally show ?thesis by simp
qed

lemma lex_OR: "tokenize [] (a @ '' OR '' @ b) = tokenize [] a @ TOR # tokenize [] b"
proof -
  have sp: "is_space CHR '' ''" by (simp add: is_space_def)
  have "tokenize [] (a @ '' OR '' @ b) = tokenize [] a @ tokenize [] (CHR '' '' # (''OR'' @ CHR '' '' # b))"
    using lex_break [of "CHR '' ''" "[]" a "''OR '' @ b"] sp by simp
  also have "tokenize [] (CHR '' '' # (''OR'' @ CHR '' '' # b)) = tokenize [] (''OR'' @ CHR '' '' # b)"
    using sp by (simp add: flush_def)
  also have "tokenize [] (''OR'' @ CHR '' '' # b) = tokenize [] ''OR'' @ tokenize [] (CHR '' '' # b)"
    using lex_break [of "CHR '' ''" "[]" "''OR''" b] sp by blast
  also have "tokenize [] ''OR'' = [TOR]"
    by (simp add: is_space_def is_special_def flush_def word_tok_def)
  also have "tokenize [] (CHR '' '' # b) = tokenize [] b"
    using sp by (simp add: flush_def)
  finally show ?thesis by simp
qed

lemma lex_join_AND: "tokenize [] (join '' AND '' xs) = join [TAND] (map (tokenize []) xs)"
proof (induction "'' AND ''" xs rule: join.induct)
  case (3 x y ys)
  then show ?case using lex_AND [of x "join '' AND '' (y # ys)"] by simp
qed (simp_all add: flush_def)

lemma lex_join_OR: "tokenize [] (join '' OR '' xs) = join [TOR] (map (tokenize []) xs)"
proof (induction "'' OR ''" xs rule: join.induct)
  case (3 x y ys)
  then show ?case using lex_OR [of x "join '' OR '' (y # ys)"] by simp
qed (simp_all add: flush_def)

lemma lex_parens: "tokenize [] (''('' @ s @ '')'') = LPAREN # tokenize [] s @ [RPAREN]"
proof -
  have "tokenize [] (s @ [CHR '')'']) = tokenize [] s @ tokenize [] [CHR '')'']"
    using lex_break [of "CHR '')''" "[]" s "[]"] by (simp add: is_special_def)
  then show ?thesis
    by (simp add: is_space_def is_special_def flush_def special_tok_def)
qed

lemma lex_word_chars:
  "list_all (\<lambda>c. \<not> is_space c \<and> \<not> is_special c) w \<Longrightarrow> tokenize acc w = flush (acc @ w)"
  by (induction w arbitrary: acc) auto

lemma lex_plain_word: "plain_word w \<Longrightarrow> tokenize [] w = [WORD w]"
  by (simp add: plain_word_def lex_word_chars flush_def word_tok_def)

lemma plain_match_split:
  assumes "CHR '':'' \<in> set s"
  shows "s = key_of s @ CHR '':'' # value_of s"
proof -
  let ?P = "\<lambda>c. c \<noteq> CHR '':''"
  have ne: "dropWhile ?P s \<noteq> []" using assms by (simp add: dropWhile_eq_Nil_conv)
  then have "hd (dropWhile ?P s) = CHR '':''" using hd_dropWhile [of ?P s] by simp
  with ne have "dropWhile ?P s = CHR '':'' # value_of s"
    by (cases "dropWhile ?P s") (simp_all add: value_of_def)
  then show ?thesis
    using takeWhile_dropWhile_id [of ?P s] by (simp add: key_of_def)
qed

lemma lex_plain_match:
  assumes "plain_match s"
  shows "tokenize [] s = [WORD (key_of s), COLON, WORD (value_of s)]"
proof -
  have s: "s = key_of s @ CHR '':'' # value_of s"
    using assms plain_match_split by (simp add: plain_match_def)
  have "tokenize [] (key_of s @ CHR '':'' # value_of s)
          = tokenize [] (key_of s) @ tokenize [] (CHR '':'' # value_of s)"
    using lex_break [of "CHR '':''" "[]" "key_of s" "value_of s"] by (simp add: is_special_def)
  also have "\<dots> = [WORD (key_of s), COLON, WORD (value_of s)]"
    using assms
    by (simp add: plain_match_def lex_plain_word is_space_def is_special_def special_tok_def flush_def)
  finally show ?thesis using s by simp
qed


lemma join_Cons: "join sep (x # xs) = x @ concat (map (\<lambda>y. sep @ y) xs)"
  by (induction sep xs arbitrary: x rule: join.induct) simp_all

lemma parse_leaf:
  "plain_match s \<Longrightarrow>
     expect_operand st os as 0 (tokenize [] s @ ts) = expect_operator st os as (match_of s) ts"
  by (simp add: lex_plain_match match_of_def)

lemma parse_or_rest:
  "list_all plain_match g \<Longrightarrow>
     expect_operator ((os', as', n') # st) os None x
        (concat (map (\<lambda>s. TOR # tokenize [] s) g) @ RPAREN # ts)
     = expect_operator st os' as' (negate n' (foldl OrNode (join_or os x) (map match_of g))) ts"
proof (induction g arbitrary: os x)
  case Nil
  then show ?case by (simp add: join_and_def)
next
  case (Cons s g)
  have "expect_operator ((os', as', n') # st) os None x
          (concat (map (\<lambda>s. TOR # tokenize [] s) (s # g)) @ RPAREN # ts)
        = expect_operand ((os', as', n') # st) (Some (join_or os x)) None 0
            (tokenize [] s @ concat (map (\<lambda>s. TOR # tokenize [] s) g) @ RPAREN # ts)"
    by (simp add: join_and_def)
  also have "\<dots> = expect_operator ((os', as', n') # st) (Some (join_or os x)) None (match_of s)
            (concat (map (\<lambda>s. TOR # tokenize [] s) g) @ RPAREN # ts)"
    using Cons.prems by (simp add: parse_leaf)
  also have "\<dots> = expect_operator st os' as'
            (negate n' (foldl OrNode (join_or (Some (join_or os x)) (match_of s)) (map match_of g))) ts"
    using Cons.prems by (simp add: Cons.IH)
  finally show ?case by (simp add: join_or_def)
qed

lemma group_tokens:
  "tokenize [] (''('' @ join '' OR '' (s # g) @ '')'')
     = LPAREN # tokenize [] s @ concat (map (\<lambda>s. TOR # tokenize [] s) g) @ [RPAREN]"
proof -
  have "tokenize [] (''('' @ join '' OR '' (s # g) @ '')'')
          = LPAREN # tokenize [] (join '' OR '' (s # g)) @ [RPAREN]"
    by (rule lex_parens)
  also have "tokenize [] (join '' OR '' (s # g)) = join [TOR] (map (tokenize []) (s # g))"
    by (rule lex_join_OR)
  also have "\<dots> = tokenize [] s @ concat (map (\<lambda>s. TOR # tokenize [] s) g)"
    by (simp add: join_Cons comp_def)
  finally show ?thesis by simp
qed

lemma parse_group:
  assumes "g \<noteq> []" "list_all plain_match g"
  shows "expect_operand st os as 0 (tokenize [] (''('' @ join '' OR '' g @ '')'') @ ts)
         = expect_operator st os as (the (chain OrNode (map match_of g))) ts"
proof -
  obtain s g' where g: "g = s # g'" using assms(1) by (cases g) auto
  have "expect_operand st os as 0 (tokenize [] (''('' @ join '' OR '' g @ '')'') @ ts)
        = expect_operand ((os, as, 0) # st) None None 0
            (tokenize [] s @ concat (map (\<lambda>s. TOR # tokenize [] s) g') @ RPAREN # ts)"
    unfolding g group_tokens by simp
  also have "\<dots> = expect_operator ((os, as, 0) # st) None None (match_of s)
            (concat (map (\<lambda>s. TOR # tokenize [] s) g') @ RPAREN # ts)"
    using assms(2) g by (simp add: parse_leaf)
  also have "\<dots> = expect_operator st os as
            (negate 0 (foldl OrNode (join_or None (match_of s)) (map match_of g'))) ts"
    using assms(2) g by (simp add: parse_or_rest)
  finally show ?thesis by (simp add: g join_or_def)
qed

lemma element_plain: "plain_facet f \<Longrightarrow> \<exists>x. element f = Some x"
  by (cases f) (auto simp: neq_Nil_conv)

lemma parse_element:
  assumes "plain_facet f"
  shows "expect_operand st os as 0 (tokenize [] (estring f) @ ts)
     = expect_operator st os as (the (element f)) ts"
proof (cases f)
  case (Bare s)
  then show ?thesis using assms by (simp add: estring_def parse_leaf)
next
  case (Group g)
  then have "estring f = ''('' @ join '' OR '' g @ '')''" by (simp add: estring_def)
  then show ?thesis using assms Group parse_group [of g st os as ts] by simp
qed

lemma parse_and_rest:
  "list_all plain_facet fs \<Longrightarrow>
     expect_operator [] None as x (concat (map (\<lambda>f. TAND # tokenize [] (estring f)) fs))
     = Inr (foldl AndNode (join_and as x) (map (\<lambda>f. the (element f)) fs))"
proof (induction fs arbitrary: as x)
  case Nil
  then show ?case by (simp add: join_or_def)
next
  case (Cons f fs)
  have "expect_operator [] None as x (concat (map (\<lambda>f. TAND # tokenize [] (estring f)) (f # fs)))
        = expect_operand [] None (Some (join_and as x)) 0
            (tokenize [] (estring f) @ concat (map (\<lambda>f. TAND # tokenize [] (estring f)) fs))"
    by simp
  also have "\<dots> = expect_operator [] None (Some (join_and as x)) (the (element f))
            (concat (map (\<lambda>f. TAND # tokenize [] (estring f)) fs))"
    using Cons.prems by (simp add: parse_element)
  also have "\<dots> = Inr (foldl AndNode (join_and (Some (join_and as x)) (the (element f)))
            (map (\<lambda>f. the (element f)) fs))"
    using Cons.prems by (simp add: Cons.IH)
  finally show ?case by (simp add: join_and_def)
qed

lemma those_elements:
  "list_all plain_facet fs \<Longrightarrow> those (map element fs) = Some (map (\<lambda>f. the (element f)) fs)"
proof (induction fs)
  case (Cons f fs)
  then show ?case using element_plain [of f] by auto
qed simp

lemma facetFilterString_estring: "facetFilterString fs = join '' AND '' (map estring fs)"
  unfolding facetFilterString_def estring_def ..

lemma parse_facets:
  assumes "fs \<noteq> []" "list_all plain_facet fs"
  shows "\<exists>ast. normalize fs = Some ast \<and> parse (facetFilterString fs) = Inr ast"
proof -
  obtain f fs' where fs: "fs = f # fs'" using assms(1) by (cases fs) auto
  let ?ast = "foldl AndNode (the (element f)) (map (\<lambda>f. the (element f)) fs')"
  have n: "normalize fs = Some ?ast"
    using those_elements [OF assms(2)] by (simp add: normalize_def fs)
  have "tokenize [] (facetFilterString fs) = join [TAND] (map (tokenize []) (map estring fs))"
    unfolding facetFilterString_estring by (rule lex_join_AND)
  then have "tokenize [] (facetFilterString fs)
          = tokenize [] (estring f) @ concat (map (\<lambda>f. TAND # tokenize [] (estring f)) fs')"
    by (simp add: fs join_Cons comp_def)
  then have "parse (facetFilterString fs)
          = expect_operand [] None None 0
              (tokenize [] (estring f) @ concat (map (\<lambda>f. TAND # tokenize [] (estring f)) fs'))"
    by (simp add: parse_def)
  also have "\<dots> = expect_operator [] None None (the (element f))
              (concat (map (\<lambda>f. TAND # tokenize [] (estring f)) fs'))"
    using assms(2) fs by (simp add: parse_element)
  also have "\<dots> = Inr (foldl AndNode (join_and None (the (element f))) (map (\<lambda>f. the (element f)) fs'))"
    using assms(2) fs by (simp add: parse_and_rest)
  finally have "parse (facetFilterString fs) = Inr ?ast" by (simp add: join_and_def)
  with n show ?thesis by blast
qed

subsection \<open>Facet filters\<close>

text \<open>
  C4 as the code has it, with the parser of the specification. For a list of facet
  filters that is not empty, whose nested lists are not empty and whose member
  strings are plain matches, the string that the handler builds parses to the tree
  of the normalizer: a Match for a bare string, an Or-chain for a nested list, the
  elements combined with And. The facet clause is the compiled tree.
\<close>

theorem facet_filters_normalized:
  assumes "fs \<noteq> []" "list_all plain_facet fs"
  shows "\<exists>ast. normalize fs = Some ast
           \<and> parse (facetFilterString fs) = Inr ast
           \<and> parseAlgoliaSQL parse db (facetFilterString fs) = buildSearchExpression ast db
           \<and> searchExp parse db (plain_request \<lparr> facetFilters := Some fs \<rparr>)
               = map_sum id (\<lambda>x. [x]) (buildSearchExpression ast db)"
proof -
  from parse_facets [OF assms] obtain ast where
    a: "normalize fs = Some ast" "parse (facetFilterString fs) = Inr ast"
    by blast
  then have p: "parseAlgoliaSQL parse db (facetFilterString fs) = buildSearchExpression ast db"
    by (simp add: parseAlgoliaSQL_def)
  have "searchExp parse db (plain_request \<lparr> facetFilters := Some fs \<rparr>)
          = map_sum id (\<lambda>x. [x]) (buildSearchExpression ast db)"
    unfolding searchExp_def by (simp add: plain_request_def p split: sum.splits)
  with a p show ?thesis by blast
qed

theorem facet_filters_normalized_witness:
  "[Group [''a:1'', ''a:2''], Bare ''b:3''] \<noteq> []
   \<and> list_all plain_facet [Group [''a:1'', ''a:2''], Bare ''b:3'']
   \<and> normalize [Group [''a:1'', ''a:2''], Bare ''b:3'']
       = Some (AndNode (OrNode (MatchNode ''a'' (LNumber 1)) (MatchNode ''a'' (LNumber 2)))
                 (MatchNode ''b'' (LNumber 3)))
   \<and> parseAlgoliaSQL parse (recording_db (Inr ([] :: int item list)))
        (facetFilterString [Group [''a:1'', ''a:2''], Bare ''b:3''])
       = Inr (Built (AND_tree (Built (OR_tree (Str ''a:1'') (Str ''a:2''))) (Str ''b:3'')))"
proof -
  let ?fs = "[Group [''a:1'', ''a:2''], Bare ''b:3'']"
  let ?db = "recording_db (Inr ([] :: int item list))"
  let ?ast = "AndNode (OrNode (MatchNode ''a'' (LNumber 1)) (MatchNode ''a'' (LNumber 2)))
                 (MatchNode ''b'' (LNumber 3))"
  have ne: "?fs \<noteq> []" by simp
  have m: "plain_match ''a:1''" "plain_match ''a:2''" "plain_match ''b:3''"
    by (simp_all add: plain_match_def plain_word_def key_of_def value_of_def is_space_def is_special_def)
  have pl: "list_all plain_facet ?fs" using m by simp
  have mo: "match_of ''a:1'' = MatchNode ''a'' (LNumber 1)"
    "match_of ''a:2'' = MatchNode ''a'' (LNumber 2)"
    "match_of ''b:3'' = MatchNode ''b'' (LNumber 3)"
    by (simp_all add: match_of_def key_of_def value_of_def literal_of_def is_digit_def)
  have n: "normalize ?fs = Some ?ast" by (simp add: normalize_def mo)
  from facet_filters_normalized [OF ne pl, of ?db] obtain ast where
    a: "normalize ?fs = Some ast"
       "parseAlgoliaSQL parse ?db (facetFilterString ?fs) = buildSearchExpression ast ?db"
    by blast
  from a(1) n have "ast = ?ast" by simp
  with a(2) have "parseAlgoliaSQL parse ?db (facetFilterString ?fs) = buildSearchExpression ?ast ?db"
    by simp
  also have "\<dots> = Inr (Built (AND_tree (Built (OR_tree (Str ''a:1'') (Str ''a:2''))) (Str ''b:3'')))"
    by (simp add: recording_db_def digits.simps)
  finally show ?thesis using ne pl n by (intro conjI)
qed

text \<open>
  One bare string that holds \<^verbatim>\<open> AND \<close> is read as a conjunction of two matches,
  where the normalizer has a single Match.
\<close>

theorem facet_string_retokenized:
  "normalize [Bare ''a:1 AND b:2''] = Some (MatchNode ''a'' (LString ''1 AND b:2''))
   \<and> parse (facetFilterString [Bare ''a:1 AND b:2''])
       = Inr (AndNode (MatchNode ''a'' (LNumber 1)) (MatchNode ''b'' (LNumber 2)))
   \<and> map_sum id token (parse (facetFilterString [Bare ''a:1 AND b:2''])) = Inr ''AND''
   \<and> parseAlgoliaSQL parse (recording_db (Inr ([] :: int item list)))
        (facetFilterString [Bare ''a:1 AND b:2''])
       = Inr (Built (AND_tree (Str ''a:1'') (Str ''b:2'')))"
proof -
  have str: "facetFilterString [Bare ''a:1 AND b:2''] = ''a:1 AND b:2''"
    by (simp add: facetFilterString_def)
  have n: "normalize [Bare ''a:1 AND b:2''] = Some (MatchNode ''a'' (LString ''1 AND b:2''))"
    by (simp add: normalize_def match_of_def key_of_def value_of_def literal_of_def is_digit_def)
  have p: "parse ''a:1 AND b:2''
       = Inr (AndNode (MatchNode ''a'' (LNumber 1)) (MatchNode ''b'' (LNumber 2)))"
    by (simp add: parser_defs)
  have c: "parseAlgoliaSQL parse (recording_db (Inr ([] :: int item list))) ''a:1 AND b:2''
       = Inr (Built (AND_tree (Str ''a:1'') (Str ''b:2'')))"
    by (simp add: parseAlgoliaSQL_def p recording_db_def digits.simps)
  show ?thesis unfolding str by (simp add: n p c)
qed

text \<open>
  C10. The facet filters reach the parser as one string: a nested list is joined
  with \<^verbatim>\<open>' OR '\<close> inside parentheses, the elements are joined with
  \<^verbatim>\<open>' AND '\<close>, the member strings stand in it as they are, and the string is given
  to the function that the \<open>filters\<close> field is given to. A request with facet
  filters therefore has the search expressions of the request whose \<open>filters\<close> is
  that string, and one bare string with \<^verbatim>\<open>' AND '\<close> in it gives the string of
  two bare strings.
\<close>

theorem facet_filters_by_text:
  "facetFilterString [] = []
   \<and> facetFilterString [Bare s] = s
   \<and> facetFilterString [Group g] = ''('' @ join '' OR '' g @ '')''
   \<and> facetFilterString (f # f' # fs') = facetFilterString [f] @ '' AND '' @ facetFilterString (f' # fs')
   \<and> join '' OR '' (m # m' # ms) = m @ '' OR '' @ join '' OR '' (m' # ms)
   \<and> (facetFilters req = Some fs \<and> filters req = None \<and> facetFilterString fs \<noteq> [] \<longrightarrow>
        searchExp parser db req
          = searchExp parser db (req \<lparr> filters := Some (facetFilterString fs), facetFilters := None \<rparr>))
   \<and> facetFilterString [Bare (a @ '' AND '' @ b)] = facetFilterString [Bare a, Bare b]"
  by (simp add: facetFilterString_def searchExp_def split: option.splits sum.splits)

theorem facet_filters_by_text_witness:
  "facetFilters (plain_request \<lparr> facetFilters := Some [Bare ''a:1 AND b:2''] \<rparr>)
       = Some [Bare ''a:1 AND b:2'']
   \<and> filters (plain_request \<lparr> facetFilters := Some [Bare ''a:1 AND b:2''] \<rparr>) = None
   \<and> facetFilterString [Bare ''a:1 AND b:2''] \<noteq> []
   \<and> searchExp parse (recording_db (Inr ([] :: int item list)))
        (plain_request \<lparr> facetFilters := Some [Bare ''a:1 AND b:2''] \<rparr>)
       = Inr [Built (AND_tree (Str ''a:1'') (Str ''b:2''))]"
proof -
  let ?db = "recording_db (Inr ([] :: int item list))"
  let ?fs = "[Bare ''a:1 AND b:2'']"
  let ?req = "plain_request \<lparr> facetFilters := Some ?fs \<rparr>"
  have str: "facetFilterString ?fs = ''a:1 AND b:2''" by (simp add: facetFilterString_def)
  have h: "facetFilters ?req = Some ?fs \<and> filters ?req = None \<and> facetFilterString ?fs \<noteq> []"
    by (simp add: plain_request_def str)
  have p: "parseAlgoliaSQL parse ?db ''a:1 AND b:2'' = Inr (Built (AND_tree (Str ''a:1'') (Str ''b:2'')))"
    by (simp add: parseAlgoliaSQL_def parser_defs digits.simps recording_db_def)
  have "searchExp parse ?db (?req \<lparr> filters := Some (facetFilterString ?fs), facetFilters := None \<rparr>)
          = Inr [Built (AND_tree (Str ''a:1'') (Str ''b:2''))]"
    unfolding str searchExp_def by (simp add: plain_request_def p)
  then have "searchExp parse ?db ?req = Inr [Built (AND_tree (Str ''a:1'') (Str ''b:2''))]"
    using facet_filters_by_text [of "''''" "[]" "Bare ''''" "Bare ''''" "[]" "''''" "''''" "[]" ?req ?fs parse ?db "''''" "''''",
        THEN conjunct2, THEN conjunct2, THEN conjunct2, THEN conjunct2, THEN conjunct2,
        THEN conjunct1, THEN mp, OF h]
    by simp
  then show ?thesis using h by blast
qed


subsection \<open>The query handler\<close>

text \<open>
  C8. The text clause comes first among the search expressions and is built from
  \<open>query\<close> alone: a query that is present and not empty is passed as it is, an
  empty query gives \<^verbatim>\<open>'*'\<close>, and without a query nothing is put in front of the
  filter clauses, each of which is then the compiled \<open>filters\<close> or the compiled
  \<open>facetFilters\<close>.
\<close>

theorem text_clause:
  "(query req = Some q \<and> q \<noteq> [] \<longrightarrow>
      searchExp parser db req
        = map_sum id (\<lambda>rest. Str q # rest) (searchExp parser db (req \<lparr> query := None \<rparr>)))
   \<and> (query req = Some [] \<longrightarrow>
      searchExp parser db req
        = map_sum id (\<lambda>rest. Str ''*'' # rest) (searchExp parser db (req \<lparr> query := None \<rparr>)))
   \<and> (query req = None \<and> searchExp parser db req = Inr exps \<longrightarrow>
      length exps \<le> 2
      \<and> (\<forall>x \<in> set exps.
            (\<exists>f. filters req = Some f \<and> parseAlgoliaSQL parser db f = Inr x)
            \<or> (\<exists>fs. facetFilters req = Some fs
                  \<and> parseAlgoliaSQL parser db (facetFilterString fs) = Inr x)))
   \<and> (query req = None \<and> filters req = None \<and> facetFilters req = None \<longrightarrow>
      searchExp parser db req = Inr [])"
  by (auto simp: searchExp_def split: option.splits sum.splits if_splits)

theorem text_clause_witness:
  "searchExp parse (recording_db (Inr ([] :: int item list)))
      (plain_request \<lparr> query := Some ''shoes'', filters := Some ''a:1'' \<rparr>)
     = Inr [Str ''shoes'', Str ''a:1'']
   \<and> searchExp parse (recording_db (Inr ([] :: int item list)))
      (plain_request \<lparr> query := Some [], filters := Some ''a:1'' \<rparr>)
     = Inr [Str ''*'', Str ''a:1'']
   \<and> searchExp parse (recording_db (Inr ([] :: int item list)))
      (plain_request \<lparr> filters := Some ''a:1'' \<rparr>)
     = Inr [Str ''a:1'']
   \<and> ((\<exists>f. filters (plain_request \<lparr> filters := Some ''a:1'' \<rparr>) = Some f
             \<and> parseAlgoliaSQL parse (recording_db (Inr ([] :: int item list))) f = Inr (Str ''a:1''))
        \<or> (\<exists>fs. facetFilters (plain_request \<lparr> filters := Some ''a:1'' \<rparr>) = Some fs
             \<and> parseAlgoliaSQL parse (recording_db (Inr ([] :: int item list)))
                   (facetFilterString fs) = Inr (Str ''a:1'')))
   \<and> searchExp parse (recording_db (Inr ([] :: int item list))) plain_request = Inr []"
proof -
  let ?db = "recording_db (Inr ([] :: int item list))"
  let ?f = "plain_request \<lparr> filters := Some ''a:1'' \<rparr>"
  have p: "parseAlgoliaSQL parse ?db ''a:1'' = Inr (Str ''a:1'')"
    by (simp add: parseAlgoliaSQL_def parse_def is_space_def is_special_def flush_def
          word_tok_def special_tok_def literal_of_def is_digit_def join_and_def join_or_def
          digits.simps)
  have base: "searchExp parse ?db ?f = Inr [Str ''a:1'']"
    unfolding searchExp_def by (simp add: plain_request_def p)
  have eq1: "(plain_request \<lparr> query := Some ''shoes'', filters := Some ''a:1'' \<rparr>) \<lparr> query := None \<rparr> = ?f"
    by (simp add: plain_request_def)
  have eq2: "(plain_request \<lparr> query := Some [], filters := Some ''a:1'' \<rparr>) \<lparr> query := None \<rparr> = ?f"
    by (simp add: plain_request_def)
  have q1: "query (plain_request \<lparr> query := Some ''shoes'', filters := Some ''a:1'' \<rparr>) = Some ''shoes''
              \<and> ''shoes'' \<noteq> []"
    by simp
  have q2: "query (plain_request \<lparr> query := Some [], filters := Some ''a:1'' \<rparr>) = Some []"
    by simp
  have q3: "query plain_request = None \<and> filters plain_request = None \<and> facetFilters plain_request = None"
    by (simp add: plain_request_def)
  have a: "searchExp parse ?db (plain_request \<lparr> query := Some ''shoes'', filters := Some ''a:1'' \<rparr>)
            = Inr [Str ''shoes'', Str ''a:1'']"
    using text_clause [of "plain_request \<lparr> query := Some ''shoes'', filters := Some ''a:1'' \<rparr>"
        "''shoes''" parse ?db "[]", THEN conjunct1, THEN mp, OF q1]
    unfolding eq1 base by simp
  have b: "searchExp parse ?db (plain_request \<lparr> query := Some [], filters := Some ''a:1'' \<rparr>)
            = Inr [Str ''*'', Str ''a:1'']"
    using text_clause [of "plain_request \<lparr> query := Some [], filters := Some ''a:1'' \<rparr>"
        "[]" parse ?db "[]", THEN conjunct2, THEN conjunct1, THEN mp, OF q2]
    unfolding eq2 base by simp
  have c: "searchExp parse ?db plain_request = Inr []"
    by (rule text_clause [of plain_request "[]" parse ?db "[]", THEN conjunct2, THEN conjunct2,
          THEN conjunct2, THEN mp, OF q3])
  have q4: "query ?f = None \<and> searchExp parse ?db ?f = Inr [Str ''a:1'']"
    using base by (simp add: plain_request_def)
  have m: "Str ''a:1'' \<in> set [Str ''a:1'' :: tree operand]" by simp
  note d = text_clause [of ?f "[]" parse ?db "[Str ''a:1'']", THEN conjunct2, THEN conjunct2,
      THEN conjunct1, THEN mp, OF q4, THEN conjunct2, THEN bspec, OF m]
  show ?thesis by (intro conjI a b base d c)
qed

text \<open>
  C9. The mapping of a raw match gives \<open>objectID\<close> the value of \<open>_id\<close>, removes
  \<open>_id\<close>, and leaves every other field as it is; without a sort attribute the
  hits of a response are such mapped matches.
\<close>

theorem toHit_renames:
  "toHit item ''objectID'' = obj item ''_id''
   \<and> toHit item ''_id'' = None
   \<and> (\<forall>k. k \<noteq> ''objectID'' \<and> k \<noteq> ''_id'' \<longrightarrow> toHit item k = obj item k)
   \<and> (sortAttribute req = None \<longrightarrow> set (hits (respond h req result)) \<subseteq> toHit ` set result)"
proof -
  have "set (slice (map toHit result) a b) \<subseteq> toHit ` set result" for a b
    using set_take_subset set_drop_subset
    by (fastforce simp: slice_def Let_def dest: in_set_takeD in_set_dropD)
  then show ?thesis by (simp add: toHit_def Let_def respond_def)
qed

theorem toHit_renames_witness:
  "toHit \<lparr> obj = [''_id'' \<mapsto> (7::int), ''price'' \<mapsto> 30] \<rparr> ''objectID'' = Some 7
   \<and> toHit \<lparr> obj = [''_id'' \<mapsto> (7::int), ''price'' \<mapsto> 30] \<rparr> ''_id'' = None
   \<and> toHit \<lparr> obj = [''_id'' \<mapsto> (7::int), ''price'' \<mapsto> 30] \<rparr> ''price'' = Some 30
   \<and> sortAttribute plain_request = None
   \<and> set (hits (respond number_host plain_request
                   [\<lparr> obj = [''_id'' \<mapsto> (7::int), ''price'' \<mapsto> 30] \<rparr>]))
       \<subseteq> toHit ` set [\<lparr> obj = [''_id'' \<mapsto> (7::int), ''price'' \<mapsto> 30] \<rparr>]"
proof -
  let ?i = "\<lparr> obj = [''_id'' \<mapsto> (7::int), ''price'' \<mapsto> 30] \<rparr>"
  note t = toHit_renames [of ?i plain_request number_host "[?i]"]
  have n: "sortAttribute plain_request = None" by (simp add: plain_request_def)
  note d = t [THEN conjunct2, THEN conjunct2, THEN conjunct2, THEN mp, OF n]
  have k: "''price'' \<noteq> ''objectID'' \<and> ''price'' \<noteq> ''_id''" by simp
  have a: "toHit ?i ''objectID'' = Some 7" using t [THEN conjunct1] by simp
  have b: "toHit ?i ''_id'' = None" by (rule t [THEN conjunct2, THEN conjunct1])
  have c: "toHit ?i ''price'' = Some 30"
    using t [THEN conjunct2, THEN conjunct2, THEN conjunct1, THEN spec, THEN mp, OF k] by simp
  show ?thesis by (intro conjI a b c n d)
qed

lemma ceil_quotient_bounds:
  assumes "0 < b"
  shows "\<exists>n. ceil_quotient a b = Finite n \<and> (n - 1) * b < a \<and> a \<le> n * b"
proof -
  define q where "q = (- a) div b"
  define m where "m = (- a) mod b"
  have c: "\<lceil>real_of_int a / real_of_int b\<rceil> = - q"
    unfolding q_def by (rule ceiling_divide_eq_div)
  have "q * b + m = - a" unfolding q_def m_def by simp
  then have a: "a = - (q * b) - m" by linarith
  have m: "0 \<le> m" "m < b" using assms by (simp_all add: m_def)
  have "(- q - 1) * b = - (q * b) - b" by (simp add: algebra_simps)
  then have lo: "(- q - 1) * b < a" using a m by linarith
  have "- q * b = - (q * b)" by simp
  then have up: "a \<le> - q * b" using a m by linarith
  show ?thesis using assms c lo up by (simp add: ceil_quotient_def)
qed

text \<open>
  C7. In every result of the handler, \<open>nbHits\<close> is the number of matches that the
  search returned, and for a positive \<open>hitsPerPage\<close> the field \<open>nbPages\<close> is the
  least integer \<open>n\<close> with \<open>nbHits \<le> n * hitsPerPage\<close>, which is the ceiling of the
  quotient.
\<close>

theorem nbHits_nbPages:
  assumes "queryHandler h parser db req = Inr r" and "0 < res_hitsPerPage r"
  shows "\<exists>exps result n.
           searchExp parser db req = Inr exps \<and> SEARCH db exps = Inr result
           \<and> nbHits r = int (length result)
           \<and> nbPages r = Finite n
           \<and> (n - 1) * res_hitsPerPage r < nbHits r \<and> nbHits r \<le> n * res_hitsPerPage r"
proof -
  from assms(1) obtain exps result where
    e: "searchExp parser db req = Inr exps" and s: "SEARCH db exps = Inr result"
    and r: "r = respond h req result"
    by (auto simp: queryHandler_def split: sum.splits)
  have nb: "nbHits r = int (length result)" by (simp add: r respond_def Let_def)
  have np: "nbPages r = ceil_quotient (nbHits r) (res_hitsPerPage r)"
    by (simp add: r respond_def Let_def)
  from ceil_quotient_bounds [OF assms(2), of "nbHits r"] obtain n where
    "ceil_quotient (nbHits r) (res_hitsPerPage r) = Finite n"
    "(n - 1) * res_hitsPerPage r < nbHits r" "nbHits r \<le> n * res_hitsPerPage r"
    by blast
  with e s nb np show ?thesis by auto
qed

theorem nbHits_nbPages_witness:
  "queryHandler number_host parse (recording_db (Inr (numbered 25)))
      (plain_request \<lparr> hitsPerPage := Some 20 \<rparr>)
     = Inr (respond number_host (plain_request \<lparr> hitsPerPage := Some 20 \<rparr>) (numbered 25))
   \<and> 0 < res_hitsPerPage (respond number_host (plain_request \<lparr> hitsPerPage := Some 20 \<rparr>) (numbered 25))
   \<and> nbHits (respond number_host (plain_request \<lparr> hitsPerPage := Some 20 \<rparr>) (numbered 25)) = 25
   \<and> nbPages (respond number_host (plain_request \<lparr> hitsPerPage := Some 20 \<rparr>) (numbered 25)) = Finite 2"
proof -
  let ?req = "plain_request \<lparr> hitsPerPage := Some 20 \<rparr>"
  let ?db = "recording_db (Inr (numbered 25)) :: (tree, int) db"
  let ?r = "respond number_host ?req (numbered 25)"
  have s: "searchExp parse ?db ?req = Inr []"
    by (simp add: searchExp_def plain_request_def)
  have q: "queryHandler number_host parse ?db ?req = Inr ?r"
    unfolding queryHandler_def s by (simp add: recording_db_def)
  have hp: "res_hitsPerPage ?r = 20" by (simp add: respond_def Let_def)
  then have pos: "0 < res_hitsPerPage ?r" by simp
  from nbHits_nbPages [OF q pos] obtain exps result n where
    a: "searchExp parse ?db ?req = Inr exps" "SEARCH ?db exps = Inr result"
       "nbHits ?r = int (length result)" "nbPages ?r = Finite n"
       "(n - 1) * res_hitsPerPage ?r < nbHits ?r" "nbHits ?r \<le> n * res_hitsPerPage ?r"
    by blast
  from a(2) have "result = numbered 25" by (simp add: recording_db_def)
  then have nb: "nbHits ?r = 25" using a(3) by (simp add: numbered_def)
  from a(5) a(6) have "n = 2" unfolding nb hp by arith
  with a(4) q pos nb show ?thesis by simp
qed

lemma slice_window:
  assumes "0 \<le> start" "start \<le> fin"
  shows "slice xs start fin = take (nat (fin - start)) (drop (nat start) xs)"
proof (cases "start \<le> int (length xs)")
  case True
  then show ?thesis using assms
    by (auto simp: slice_def Let_def min_def max_def take_all_iff)
next
  case False
  then show ?thesis using assms by (simp add: slice_def Let_def min_def max_def)
qed

lemma respond_hits:
  assumes "sortAttribute req = None" "page req = Some pg" "hitsPerPage req = Some hpp"
    "0 \<le> pg" "0 < hpp"
  shows "hits (respond h req result)
           = take (nat (hpp - 1)) (drop (nat (pg * hpp)) (map toHit result))"
proof -
  have "0 \<le> pg * hpp" using assms by simp
  moreover have "pg * hpp \<le> pg * hpp + hpp - 1" using assms by simp
  ultimately have "slice (map toHit result) (pg * hpp) (pg * hpp + hpp - 1)
      = take (nat (pg * hpp + hpp - 1 - pg * hpp)) (drop (nat (pg * hpp)) (map toHit result))"
    by (rule slice_window)
  then show ?thesis using assms by (simp add: respond_def Let_def)
qed

text \<open>
  C1. The window of the code is one hit short. With 25 matches and 20 hits per
  page, page 0 holds the 19 hits at the indices 0 to 18, and page 1 holds the 5
  hits at the indices 20 to 24: the hit at index 19 is on no page.
\<close>

theorem pagination_window_short:
  "map_sum id (\<lambda>r. (hits r, nbHits r))
      (queryHandler number_host parse (recording_db (Inr (numbered 25)))
         (plain_request \<lparr> page := Some 0, hitsPerPage := Some 20 \<rparr>))
     = Inr (take 19 (map toHit (numbered 25)), 25)
   \<and> map_sum id (\<lambda>r. length (hits r))
      (queryHandler number_host parse (recording_db (Inr (numbered 25)))
         (plain_request \<lparr> page := Some 0, hitsPerPage := Some 20 \<rparr>))
     = Inr 19
   \<and> map_sum id hits
      (queryHandler number_host parse (recording_db (Inr (numbered 25)))
         (plain_request \<lparr> page := Some 1, hitsPerPage := Some 20 \<rparr>))
     = Inr (drop 20 (map toHit (numbered 25)))"
proof -
  have len: "length (numbered 25) = 25" by (simp add: numbered_def)
  have s: "searchExp parse (recording_db (Inr (numbered 25))) (plain_request \<lparr> page := p, hitsPerPage := n \<rparr>) = Inr []"
    for p n
    by (simp add: searchExp_def plain_request_def)
  have h0: "hits (respond number_host (plain_request \<lparr> page := Some 0, hitsPerPage := Some 20 \<rparr>) (numbered 25))
      = take 19 (map toHit (numbered 25))"
    using respond_hits [of "plain_request \<lparr> page := Some 0, hitsPerPage := Some 20 \<rparr>" 0 20 number_host "numbered 25"]
    by (simp add: plain_request_def)
  have h1: "hits (respond number_host (plain_request \<lparr> page := Some 1, hitsPerPage := Some 20 \<rparr>) (numbered 25))
      = drop 20 (map toHit (numbered 25))"
    using respond_hits [of "plain_request \<lparr> page := Some 1, hitsPerPage := Some 20 \<rparr>" 1 20 number_host "numbered 25"]
    by (simp add: plain_request_def len)
  have n: "nbHits (respond number_host req (numbered 25)) = 25" for req
    by (simp add: respond_def Let_def len)
  have q: "queryHandler number_host parse (recording_db (Inr (numbered 25)))
             (plain_request \<lparr> page := p, hitsPerPage := n \<rparr>)
           = Inr (respond number_host (plain_request \<lparr> page := p, hitsPerPage := n \<rparr>) (numbered 25))"
    for p n
    unfolding queryHandler_def s by (simp add: recording_db_def)
  show ?thesis
    by (simp add: q h0 h1 n len)
qed

text \<open>
  C6. The comparison function never answers 0. For two hits without the sort
  attribute it answers -1 in both orders, and for two hits with the same number
  it answers 1 in both orders, ascending and descending. A sort that asks about the
  later hit first puts the later of two hits without the attribute in front; a
  sort that asks about the earlier hit first puts the later of two hits with the
  same number in front.
\<close>

theorem comparator_ties:
  "comparator number_host ''price'' False [''objectID'' \<mapsto> 1] [''objectID'' \<mapsto> 2] = - 1
   \<and> comparator number_host ''price'' False [''objectID'' \<mapsto> 2] [''objectID'' \<mapsto> 1] = - 1
   \<and> comparator number_host ''price'' True [''objectID'' \<mapsto> 1] [''objectID'' \<mapsto> 2] = - 1
   \<and> comparator number_host ''price'' True [''objectID'' \<mapsto> 2] [''objectID'' \<mapsto> 1] = - 1
   \<and> comparator number_host ''price'' False
        [''objectID'' \<mapsto> 1, ''price'' \<mapsto> 5] [''objectID'' \<mapsto> 2, ''price'' \<mapsto> 5] = 1
   \<and> comparator number_host ''price'' False
        [''objectID'' \<mapsto> 2, ''price'' \<mapsto> 5] [''objectID'' \<mapsto> 1, ''price'' \<mapsto> 5] = 1
   \<and> comparator number_host ''price'' True
        [''objectID'' \<mapsto> 1, ''price'' \<mapsto> 5] [''objectID'' \<mapsto> 2, ''price'' \<mapsto> 5] = 1
   \<and> comparator number_host ''price'' True
        [''objectID'' \<mapsto> 2, ''price'' \<mapsto> 5] [''objectID'' \<mapsto> 1, ''price'' \<mapsto> 5] = 1
   \<and> map (\<lambda>hit. hit ''objectID'')
        (hits (respond number_host (plain_request \<lparr> sortAttribute := Some ''price'' \<rparr>)
           [\<lparr> obj = [''_id'' \<mapsto> 1] \<rparr>, \<lparr> obj = [''_id'' \<mapsto> 2] \<rparr>]))
       = [Some 2, Some 1]
   \<and> map (\<lambda>hit. hit ''objectID'')
        (hits (respond older_host (plain_request \<lparr> sortAttribute := Some ''price'' \<rparr>)
           [\<lparr> obj = [''_id'' \<mapsto> 1, ''price'' \<mapsto> 5] \<rparr>,
            \<lparr> obj = [''_id'' \<mapsto> 2, ''price'' \<mapsto> 5] \<rparr>]))
       = [Some 2, Some 1]"
proof -
  let ?a = "toHit \<lparr> obj = [''_id'' \<mapsto> (1::int)] \<rparr>"
  let ?b = "toHit \<lparr> obj = [''_id'' \<mapsto> (2::int)] \<rparr>"
  let ?c = "toHit \<lparr> obj = [''_id'' \<mapsto> (1::int), ''price'' \<mapsto> 5] \<rparr>"
  let ?d = "toHit \<lparr> obj = [''_id'' \<mapsto> (2::int), ''price'' \<mapsto> 5] \<rparr>"
  let ?req = "plain_request \<lparr> sortAttribute := Some ''price'' \<rparr>"
  have le: "js_le number_host = number_le" and ge: "js_ge number_host = number_ge"
    and srt: "array_sort number_host = later_first_sort"
    by (simp_all add: number_host_def)
  have le': "js_le older_host = number_le" and srt': "array_sort older_host = earlier_first_sort"
    by (simp_all add: older_host_def)
  have none: "comparator number_host ''price'' desc [''objectID'' \<mapsto> i] [''objectID'' \<mapsto> j] = - 1"
    for desc i j
    by (simp add: comparator_def Let_def le ge number_le_def number_ge_def)
  have same: "comparator number_host ''price'' desc
        [''objectID'' \<mapsto> i, ''price'' \<mapsto> 5] [''objectID'' \<mapsto> j, ''price'' \<mapsto> 5] = 1"
    for desc i j
    by (simp add: comparator_def Let_def le ge number_le_def number_ge_def)
  have pa: "?a ''price'' = None" and pb: "?b ''price'' = None"
    and pc: "?c ''price'' = Some 5" and pd: "?d ''price'' = Some 5"
    by (simp_all add: toHit_def)
  have ba: "comparator number_host ''price'' False ?b ?a = - 1"
    by (simp add: comparator_def Let_def le number_le_def pa pb)
  have cd: "comparator older_host ''price'' False ?c ?d = 1"
    by (simp add: comparator_def Let_def le' number_le_def pc pd)
  have s1: "later_first_sort (comparator number_host ''price'' False) [?a, ?b] = [?b, ?a]"
    by (simp add: later_first_sort_def insertion_sort_by_def insert_by_def ba)
  have s2: "earlier_first_sort (comparator older_host ''price'' False) [?c, ?d] = [?d, ?c]"
    by (simp add: earlier_first_sort_def insertion_sort_by_def insert_by_def cd)
  have "hits (respond number_host ?req [\<lparr> obj = [''_id'' \<mapsto> 1] \<rparr>, \<lparr> obj = [''_id'' \<mapsto> 2] \<rparr>])
          = slice [?b, ?a] 0 19"
    by (simp add: respond_def plain_request_def srt s1)
  also have "\<dots> = [?b, ?a]" by (simp add: slice_def)
  finally have h1: "map (\<lambda>hit. hit ''objectID'')
        (hits (respond number_host ?req [\<lparr> obj = [''_id'' \<mapsto> 1] \<rparr>, \<lparr> obj = [''_id'' \<mapsto> 2] \<rparr>]))
       = [Some 2, Some 1]"
    by (simp add: toHit_def)
  have "hits (respond older_host ?req
           [\<lparr> obj = [''_id'' \<mapsto> 1, ''price'' \<mapsto> 5] \<rparr>, \<lparr> obj = [''_id'' \<mapsto> 2, ''price'' \<mapsto> 5] \<rparr>])
          = slice [?d, ?c] 0 19"
    by (simp add: respond_def plain_request_def srt' s2)
  also have "\<dots> = [?d, ?c]" by (simp add: slice_def)
  finally have h2: "map (\<lambda>hit. hit ''objectID'')
        (hits (respond older_host ?req
           [\<lparr> obj = [''_id'' \<mapsto> 1, ''price'' \<mapsto> 5] \<rparr>, \<lparr> obj = [''_id'' \<mapsto> 2, ''price'' \<mapsto> 5] \<rparr>]))
       = [Some 2, Some 1]"
    by (simp add: toHit_def)
  show ?thesis by (intro conjI none same h1 h2)
qed

lemma comparator_never_zero: "comparator h a d x y \<noteq> 0"
  by (simp add: comparator_def Let_def)

subsection \<open>The reply to a failure\<close>

text \<open>
  C5 as the code has it. When the text of \<open>filters\<close> or the string of the facet
  filters fails to parse or to compile, the handler fails with that error, and the
  client gets the status 400 with the message \<^verbatim>\<open>Internal server error\<close> and the
  status field 500, which is the reply to every error of the handler.
\<close>

theorem filter_failure_reply:
  assumes "(\<exists>f. filters req = Some f \<and> f \<noteq> [] \<and> parseAlgoliaSQL parser db f = Inl e)
           \<or> ((filters req = None \<or> filters req = Some []
                 \<or> (\<exists>f x. filters req = Some f \<and> parseAlgoliaSQL parser db f = Inr x))
               \<and> (\<exists>fs. facetFilters req = Some fs
                     \<and> parseAlgoliaSQL parser db (facetFilterString fs) = Inl e))"
  shows "queryHandler h parser db req = Inl e
         \<and> wrapAsyncMiddleware (queryHandler h parser db req)
             = (400, Message ''Internal server error'' 500)
         \<and> (\<forall>e'. wrapAsyncMiddleware (Inl e' :: error + 'v response)
                    = (400, Message ''Internal server error'' 500))"
proof -
  have "searchExp parser db req = Inl e"
    using assms by (auto simp: searchExp_def split: option.splits sum.splits)
  then have "queryHandler h parser db req = Inl e" by (simp add: queryHandler_def)
  then show ?thesis by (simp add: wrapAsyncMiddleware_def)
qed

theorem filter_failure_reply_witness:
  "filters (plain_request \<lparr> filters := Some ''NOT (a:1 AND b:2)'' \<rparr>) = Some ''NOT (a:1 AND b:2)''
   \<and> parseAlgoliaSQL parse (recording_db (Inr ([] :: int item list))) ''NOT (a:1 AND b:2)''
       = Inl (Error ''NOT only supports MATCH'')
   \<and> queryHandler number_host parse (recording_db (Inr ([] :: int item list)))
        (plain_request \<lparr> filters := Some ''NOT (a:1 AND b:2)'' \<rparr>)
       = Inl (Error ''NOT only supports MATCH'')
   \<and> wrapAsyncMiddleware
        (queryHandler number_host parse (recording_db (Inr ([] :: int item list)))
           (plain_request \<lparr> filters := Some ''NOT (a:1 AND b:2)'' \<rparr>))
       = (400, Message ''Internal server error'' 500)"
proof -
  let ?db = "recording_db (Inr ([] :: int item list))"
  let ?req = "plain_request \<lparr> filters := Some ''NOT (a:1 AND b:2)'' \<rparr>"
  have f: "filters ?req = Some ''NOT (a:1 AND b:2)''" by simp
  have p: "parseAlgoliaSQL parse ?db ''NOT (a:1 AND b:2)'' = Inl (Error ''NOT only supports MATCH'')"
    by (simp add: parseAlgoliaSQL_def parser_defs)
  have "\<exists>f. filters ?req = Some f \<and> f \<noteq> []
          \<and> parseAlgoliaSQL parse ?db f = Inl (Error ''NOT only supports MATCH'')"
    using f p by (intro exI [of _ "''NOT (a:1 AND b:2)''"]) simp
  then have hyp: "(\<exists>f. filters ?req = Some f \<and> f \<noteq> []
          \<and> parseAlgoliaSQL parse ?db f = Inl (Error ''NOT only supports MATCH''))
        \<or> ((filters ?req = None \<or> filters ?req = Some []
              \<or> (\<exists>f x. filters ?req = Some f \<and> parseAlgoliaSQL parse ?db f = Inr x))
            \<and> (\<exists>fs. facetFilters ?req = Some fs
                  \<and> parseAlgoliaSQL parse ?db (facetFilterString fs)
                      = Inl (Error ''NOT only supports MATCH'')))"
    by (rule disjI1)
  note t = filter_failure_reply [of ?req parse ?db "Error ''NOT only supports MATCH''" number_host, OF hyp]
  show ?thesis by (intro conjI f p t [THEN conjunct1] t [THEN conjunct2, THEN conjunct1])
qed

text \<open>
  A filter that does not parse and an index that is unavailable get the same reply.
\<close>

theorem filter_failure_indistinguishable:
  "queryHandler number_host parse (recording_db (Inr ([] :: int item list)))
      (plain_request \<lparr> filters := Some ''a:1 AND'' \<rparr>)
     = Inl (SyntaxError None)
   \<and> queryHandler number_host parse (recording_db (Inl IndexUnavailable)) plain_request
     = Inl IndexUnavailable
   \<and> wrapAsyncMiddleware
        (queryHandler number_host parse (recording_db (Inr ([] :: int item list)))
           (plain_request \<lparr> filters := Some ''a:1 AND'' \<rparr>))
     = wrapAsyncMiddleware
        (queryHandler number_host parse (recording_db (Inl IndexUnavailable)) plain_request)
   \<and> wrapAsyncMiddleware
        (queryHandler number_host parse (recording_db (Inr ([] :: int item list)))
           (plain_request \<lparr> filters := Some ''a:1 AND'' \<rparr>))
     = (400, Message ''Internal server error'' 500)"
proof -
  have p: "parseAlgoliaSQL parse (recording_db (Inr ([] :: int item list))) ''a:1 AND''
             = Inl (SyntaxError None)"
    by (simp add: parseAlgoliaSQL_def parser_defs)
  have a: "queryHandler number_host parse (recording_db (Inr ([] :: int item list)))
      (plain_request \<lparr> filters := Some ''a:1 AND'' \<rparr>) = Inl (SyntaxError None)"
    unfolding queryHandler_def searchExp_def by (simp add: plain_request_def p)
  have b: "queryHandler number_host parse (recording_db (Inl IndexUnavailable)) plain_request
      = Inl IndexUnavailable"
    by (simp add: queryHandler_def searchExp_def plain_request_def recording_db_def)
  show ?thesis unfolding a b by (simp add: wrapAsyncMiddleware_def)
qed


end
